theory Spec2Isabelle
  imports Main
begin

section \<open>Swiss ISR / QRR references of \<open>addons/l10n_ch/models/account_invoice.py\<close>\<close>

text \<open>
  The development embeds the methods of \<open>AccountMove\<close> that build, format and check the
  ISR reference of an invoice. A Python \<open>str\<close> is a \<open>string\<close>; its characters are the code
  points below 256, among which the decimal digits of \<open>\d\<close> are exactly \<open>0\<close> to \<open>9\<close>.
  A \<open>Char\<close> field of the ORM holds \<open>False\<close> or a \<open>str\<close> and is a \<open>string option\<close>.
  A method name that starts with an underscore loses it, as a HOL name cannot start so.
\<close>

subsection \<open>Exceptions\<close>

datatype error =
    IndexError
  | TypeError
  | InvalidInput
  | NotImplementedError
  | ValidationError "string list"

subsection \<open>Python built-ins on strings\<close>

text \<open>Truth value of a \<open>Char\<close> field: \<open>False\<close> and the empty string are falsy.\<close>

definition truthy :: "string option \<Rightarrow> bool" where
  "truthy v = (case v of None \<Rightarrow> False | Some s \<Rightarrow> s \<noteq> [])"

text \<open>\<open>a or b\<close> on two \<open>Char\<close> fields.\<close>

definition py_or :: "string option \<Rightarrow> string option \<Rightarrow> string option" where
  "py_or a b = (if truthy a then a else b)"

definition is_digit :: "char \<Rightarrow> bool" where
  "is_digit c = (c \<in> set ''0123456789'')"

text \<open>\<open>int(c)\<close> of a digit character, and \<open>str(n)\<close> of a number below ten.\<close>

definition digit_val :: "char \<Rightarrow> nat" where
  "digit_val c = of_char c - 48"

definition digit_char :: "nat \<Rightarrow> char" where
  "digit_char n = ''0123456789'' ! n"

text \<open>\<open>s.replace(c, '')\<close> for a one-character \<open>c\<close>.\<close>

definition remove_char :: "char \<Rightarrow> string \<Rightarrow> string" where
  "remove_char c s = filter (\<lambda>x. x \<noteq> c) s"

text \<open>
  \<open>s.zfill(width)\<close>: a string as long as \<open>width\<close> or longer is returned as it is (so for
  every negative width); otherwise zeros go to the left, after a leading sign.
\<close>

definition zfill :: "string \<Rightarrow> int \<Rightarrow> string" where
  "zfill s width =
     (if width \<le> int (length s) then s
      else (let fill = replicate (nat (width - int (length s))) (CHR ''0'')
            in case s of
                 [] \<Rightarrow> fill
               | c # cs \<Rightarrow> if c = CHR ''+'' \<or> c = CHR ''-'' then c # fill @ cs
                           else fill @ s))"

text \<open>\<open>s.rjust(width, fillchar)\<close>.\<close>

definition rjust :: "string \<Rightarrow> nat \<Rightarrow> char \<Rightarrow> string" where
  "rjust s width fillchar = replicate (width - length s) fillchar @ s"

text \<open>The slices \<open>s[2:-1]\<close> and \<open>s[-1:]\<close>, which never raise, and \<open>s[-1]\<close>, which does.\<close>

definition slice_2_m1 :: "string \<Rightarrow> string" where
  "slice_2_m1 s = drop 2 (butlast s)"

definition slice_m1_end :: "string \<Rightarrow> string" where
  "slice_m1_end s = (if s = [] then [] else [last s])"

definition index_m1 :: "string \<Rightarrow> error + char" where
  "index_m1 s = (if s = [] then Inl IndexError else Inr (last s))"

subsection \<open>\<open>mod10r\<close>\<close>

text \<open>
  Modelled from the spec: the transition table of \<open>odoo.tools.misc.mod10r\<close>, a function
  that the file imports and whose source is not part of it. The spec (4.1) names the
  table of the Swiss standard without listing it: its row \<open>carry\<close> is the row
  \<open>0 9 4 6 8 2 7 1 3 5\<close> rotated left by \<open>carry\<close> places.
\<close>

definition mod10r_codec :: "nat list" where
  "mod10r_codec = [0, 9, 4, 6, 8, 2, 7, 1, 3, 5]"

definition mod10r_table :: "nat \<Rightarrow> nat \<Rightarrow> nat" where
  "mod10r_table carry digit = mod10r_codec ! ((carry + digit) mod 10)"

text \<open>
  Modelled from the spec: the carry of \<open>mod10r\<close>, whose source is missing. The spec (4.1):
  a carry starts at 0; for each digit, left to right, the next carry is
  \<open>TABLE[carry][digit]\<close>.
\<close>

fun mod10r_carry :: "nat \<Rightarrow> string \<Rightarrow> nat" where
  "mod10r_carry carry [] = carry"
| "mod10r_carry carry (c # cs) = mod10r_carry (mod10r_table carry (digit_val c)) cs"

text \<open>
  Modelled from the spec: the check digit of \<open>mod10r\<close>, whose source is missing. The spec
  (4.1): the check digit is \<open>(10 - carry) mod 10\<close>, for the carry after the last digit.
\<close>

definition check_digit :: "string \<Rightarrow> char" where
  "check_digit digits = digit_char ((10 - mod10r_carry 0 digits) mod 10)"

text \<open>
  Modelled from the spec: \<open>odoo.tools.misc.mod10r\<close>, whose source is missing. The spec
  (4.1): the output is the input with the check digit appended; an input with a
  character that is not a digit fails with \<open>InvalidInput\<close>.
\<close>

definition mod10r :: "string \<Rightarrow> error + string" where
  "mod10r digits =
     (if list_all is_digit digits then Inr (digits @ [check_digit digits])
      else Inl InvalidInput)"

subsection \<open>Grouping in blocks of five\<close>

text \<open>
  \<open>_space_isr_number\<close>, the local function of \<open>_compute_l10n_ch_isr_number_spaced\<close>:
  the \<open>while to_treat\<close> loop, with \<open>to_treat[-5:]\<close> and \<open>to_treat[:-5]\<close>.
\<close>

function space_isr_loop :: "string \<Rightarrow> string \<Rightarrow> string" where
  "space_isr_loop to_treat res =
     (if to_treat \<noteq> [] then
        (let res1 = drop (length to_treat - 5) to_treat @ res;
             to_treat1 = take (length to_treat - 5) to_treat;
             res2 = (if to_treat1 \<noteq> [] then '' '' @ res1 else res1)
         in space_isr_loop to_treat1 res2)
      else res)"
  by pat_completeness auto
termination
  by (relation "measure (\<lambda>(to_treat, res). length to_treat)") auto

definition space_isr_number :: "string \<Rightarrow> string" where
  "space_isr_number isr_number = space_isr_loop isr_number []"

text \<open>
  \<open>space_qrr_reference\<close>: the \<open>while i > 0\<close> loop on the integer \<open>i\<close>, with the slice
  \<open>qrr_ref[max(i-5, 0) : i]\<close>.
\<close>

function space_qrr_loop :: "string \<Rightarrow> int \<Rightarrow> string \<Rightarrow> string" where
  "space_qrr_loop qrr_ref i spaced_qrr_ref =
     (if i > 0 then
        space_qrr_loop qrr_ref (i - 5)
          (drop (nat (max (i - 5) 0)) (take (nat i) qrr_ref) @ '' '' @ spaced_qrr_ref)
      else spaced_qrr_ref)"
  by pat_completeness auto
termination
  by (relation "measure (\<lambda>(qrr_ref, i, spaced_qrr_ref). nat i)") auto

definition space_qrr_reference :: "string \<Rightarrow> string" where
  "space_qrr_reference qrr_ref = space_qrr_loop qrr_ref (int (length qrr_ref)) []"

subsection \<open>Formatting the subscription number\<close>

text \<open>
  The two local functions of \<open>_compute_l10n_ch_isr_subscription\<close>.
  \<open>re.sub('^0*', '', middle_part)\<close> removes the zeros the string starts with.
\<close>

definition format_isr_subscription :: "string \<Rightarrow> error + string" where
  "format_isr_subscription isr_subscription =
     (let currency_code = take 2 isr_subscription;
          middle_part = slice_2_m1 isr_subscription
      in case index_m1 isr_subscription of
           Inl e \<Rightarrow> Inl e
         | Inr trailing_cipher \<Rightarrow>
             (let middle_part = dropWhile (\<lambda>c. c = CHR ''0'') middle_part
              in Inr (currency_code @ ''-'' @ middle_part @ ''-'' @ [trailing_cipher])))"

definition format_isr_subscription_scanline :: "string \<Rightarrow> string" where
  "format_isr_subscription_scanline isr_subscription =
     take 2 isr_subscription @ rjust (slice_2_m1 isr_subscription) 6 (CHR ''0'')
       @ slice_m1_end isr_subscription"

subsection \<open>Records\<close>

text \<open>
  The fields of \<open>res.partner.bank\<close> that the methods read. \<open>is_qr_iban\<close> is the result of
  the method \<open>_is_qr_iban()\<close>, defined outside the file.
\<close>

record res_partner_bank =
  l10n_ch_postal :: "string option"
  l10n_ch_isr_subscription_eur :: "string option"
  l10n_ch_isr_subscription_chf :: "string option"
  is_qr_iban :: bool

text \<open>
  The fields of \<open>account.move\<close> that the methods read and write. A computed field is a
  field of the record, which its compute method assigns. \<open>l10n_ch_currency_name\<close> is the
  related field of \<open>currency_id.name\<close>, and stands for both. \<open>amount_residual_split\<close> is
  \<open>float_split_str(self.amount_residual, 2)\<close>, the units and the cents of the residual
  amount as two strings: \<open>float_split_str\<close> works on floating point numbers and its source
  is not part of the file.
\<close>

record account_move =
  name :: "string option"
  type :: string
  l10n_ch_currency_name :: "string option"
  invoice_partner_bank_id :: "res_partner_bank option"
  amount_residual_split :: "string \<times> string"
  invoice_payment_ref :: "string option"
  ref :: "string option"
  l10n_ch_isr_subscription :: "string option"
  l10n_ch_isr_subscription_formatted :: "string option"
  l10n_ch_isr_number :: "string option"
  l10n_ch_isr_optical_line :: "string option"
  l10n_ch_isr_valid :: bool
  l10n_ch_isr_sent :: bool

subsection \<open>\<open>_compute_l10n_ch_isr_subscription\<close>\<close>

text \<open>
  The body of the loop, for one record. Both fields are reset first; \<open>continue\<close> leaves
  them so. \<open>format_subscription_fields\<close> is the part under \<open>if isr_subscription:\<close>, which
  both currencies share: the scanline form is assigned before the display form is
  computed, and an exception of the latter is the result of the method.
\<close>

definition format_subscription_fields ::
    "account_move \<Rightarrow> string option \<Rightarrow> error + account_move" where
  "format_subscription_fields record isr_subscription =
     (if truthy isr_subscription then
        (let isr_subscription = remove_char (CHR ''-'') (the isr_subscription);
             record = record\<lparr>l10n_ch_isr_subscription :=
                        Some (format_isr_subscription_scanline isr_subscription)\<rparr>
         in case format_isr_subscription isr_subscription of
              Inl e \<Rightarrow> Inl e
            | Inr formatted \<Rightarrow>
                Inr (record\<lparr>l10n_ch_isr_subscription_formatted := Some formatted\<rparr>))
      else Inr record)"

definition compute_l10n_ch_isr_subscription :: "account_move \<Rightarrow> error + account_move" where
  "compute_l10n_ch_isr_subscription record =
     (let record = record\<lparr>l10n_ch_isr_subscription := None,
                           l10n_ch_isr_subscription_formatted := None\<rparr>
      in case invoice_partner_bank_id record of
           None \<Rightarrow> Inr record
         | Some bank \<Rightarrow>
             if l10n_ch_currency_name record = Some ''EUR''
             then format_subscription_fields record (l10n_ch_isr_subscription_eur bank)
             else if l10n_ch_currency_name record = Some ''CHF''
             then format_subscription_fields record (l10n_ch_isr_subscription_chf bank)
             else Inr record)"

subsection \<open>\<open>_compute_l10n_ch_isr_number\<close>\<close>

definition l10n_ch_ISR_ID_NUM_LENGTH :: int where
  "l10n_ch_ISR_ID_NUM_LENGTH = 6"

text \<open>
  \<open>partner_bank.l10n_ch_postal or ''\<close>; the field of an empty record set reads \<open>False\<close>.
\<close>

definition get_isrb_id_number :: "account_move \<Rightarrow> string" where
  "get_isrb_id_number self =
     (case invoice_partner_bank_id self of
        None \<Rightarrow> []
      | Some partner_bank \<Rightarrow>
          (case l10n_ch_postal partner_bank of None \<Rightarrow> [] | Some s \<Rightarrow> s))"

text \<open>
  The lines of \<open>_compute_l10n_ch_isr_number\<close> from \<open>id_number\<close> to the argument of
  \<open>mod10r\<close>, as a function of the result of \<open>_get_isrb_id_number\<close> and of the name.
  \<open>re.sub('[^\d]', '', record.name)\<close> keeps the digits of the name.
\<close>

definition isr_id_part :: "string \<Rightarrow> string" where
  "isr_id_part id_number =
     (if id_number \<noteq> [] then zfill id_number l10n_ch_ISR_ID_NUM_LENGTH else id_number)"

definition isr_internal_ref :: "string \<Rightarrow> string \<Rightarrow> string" where
  "isr_internal_ref id_number invoice_ref =
     (let full_len = int (length id_number) + int (length invoice_ref);
          extra = full_len - 26;
          invoice_ref = (if extra > 0 then drop (nat extra) invoice_ref else invoice_ref)
      in zfill invoice_ref (26 - int (length id_number)))"

definition isr_reference_body :: "string \<Rightarrow> string \<Rightarrow> string" where
  "isr_reference_body id_number name_str =
     (let id_number = isr_id_part id_number;
          invoice_ref = filter is_digit name_str;
          internal_ref = isr_internal_ref id_number invoice_ref
      in id_number @ internal_ref)"

definition compute_l10n_ch_isr_number :: "account_move \<Rightarrow> error + account_move" where
  "compute_l10n_ch_isr_number record =
     (let has_qriban = (case invoice_partner_bank_id record of
                          None \<Rightarrow> False
                        | Some bank \<Rightarrow> is_qr_iban bank);
          isr_subscription = l10n_ch_isr_subscription record
      in if (has_qriban \<or> truthy isr_subscription) \<and> truthy (name record) then
           (case mod10r (isr_reference_body (get_isrb_id_number record) (the (name record))) of
              Inl e \<Rightarrow> Inl e
            | Inr number \<Rightarrow> Inr (record\<lparr>l10n_ch_isr_number := Some number\<rparr>))
         else Inr (record\<lparr>l10n_ch_isr_number := None\<rparr>))"

subsection \<open>The optical line\<close>

text \<open>
  \<open>_get_l10n_ch_isr_optical_amount\<close>: \<open>currency_code\<close> stays \<open>None\<close> for a currency other
  than CHF and EUR, and \<open>None + amount_ref\<close> raises \<open>TypeError\<close>.
\<close>

definition get_l10n_ch_isr_optical_amount :: "account_move \<Rightarrow> error + string" where
  "get_l10n_ch_isr_optical_amount self =
     (let currency_code =
            (if l10n_ch_currency_name self = Some ''CHF'' then Some ''01''
             else if l10n_ch_currency_name self = Some ''EUR'' then Some ''03''
             else None);
          (units, cents) = amount_residual_split self;
          amount_to_display = units @ cents;
          amount_ref = zfill amount_to_display 10
      in case currency_code of
           None \<Rightarrow> Inl TypeError
         | Some code \<Rightarrow> mod10r (code @ amount_ref))"

definition compute_l10n_ch_isr_optical_line :: "account_move \<Rightarrow> error + account_move" where
  "compute_l10n_ch_isr_optical_line record =
     (let record = record\<lparr>l10n_ch_isr_optical_line := Some []\<rparr>
      in if truthy (l10n_ch_isr_number record) \<and> truthy (l10n_ch_isr_subscription record)
            \<and> truthy (l10n_ch_currency_name record)
         then
           (case get_l10n_ch_isr_optical_amount record of
              Inl e \<Rightarrow> Inl e
            | Inr amount \<Rightarrow>
                Inr (record\<lparr>l10n_ch_isr_optical_line :=
                       Some (amount @ ''>'' @ the (l10n_ch_isr_number record) @ ''+ ''
                             @ the (l10n_ch_isr_subscription record) @ ''>'')\<rparr>))
         else Inr record)"

subsection \<open>\<open>_compute_l10n_ch_isr_valid\<close> and \<open>isr_print\<close>\<close>

definition compute_l10n_ch_isr_valid :: "account_move \<Rightarrow> account_move" where
  "compute_l10n_ch_isr_valid record =
     record\<lparr>l10n_ch_isr_valid :=
       (type record = ''out_invoice''
        \<and> truthy (name record)
        \<and> truthy (l10n_ch_isr_subscription record)
        \<and> l10n_ch_currency_name record \<in> set [Some ''EUR'', Some ''CHF''])\<rparr>"

text \<open>
  \<open>isr_print\<close> returns the record as the method leaves it, and either the exception it
  raises or the report action it returns.
\<close>

datatype report_action = Report_Action string

definition isr_print_errors :: "account_move \<Rightarrow> string list" where
  "isr_print_errors self =
     (let errors = [];
          errors =
            (if invoice_partner_bank_id self = None then
               errors @ [''- Invoice's 'Bank Account' is empty. You need to create or select a valid ISR account'']
             else if \<not> truthy (l10n_ch_isr_subscription self) then
               errors @ [''- No ISR Subscription number is set on you company bank account. Please fill it in.'']
             else errors);
          errors =
            (if type self \<noteq> ''out_invoice'' then
               errors @ [''- You can only print Customer ISR.'']
             else errors);
          errors =
            (if l10n_ch_currency_name self \<notin> set [Some ''EUR'', Some ''CHF''] then
               errors @ [''- Currency must be CHF or EUR.'']
             else errors);
          errors =
            (if \<not> truthy (name self) then
               errors @ [''- The invoice is missing a name.'']
             else errors)
      in errors)"

definition isr_print :: "account_move \<Rightarrow> account_move \<times> (error + report_action)" where
  "isr_print self =
     (if l10n_ch_isr_valid self then
        (self\<lparr>l10n_ch_isr_sent := True\<rparr>, Inr (Report_Action ''l10n_ch.l10n_ch_isr_report''))
      else
        (let errors = isr_print_errors self
         in if errors = [] then (self, Inl NotImplementedError)
            else (self, Inl (ValidationError errors))))"

subsection \<open>\<open>_has_isr_ref\<close>\<close>

text \<open>
  \<open>re.match(r'^(\d{2,27})$', ref)\<close>: \<open>$\<close> matches at the end of the string and also before
  a newline that ends the string.
\<close>

definition match_isr_ref :: "string \<Rightarrow> bool" where
  "match_isr_ref s =
     (let body = (if s \<noteq> [] \<and> last s = CHR 0x0A then butlast s else s)
      in list_all is_digit body \<and> 2 \<le> length body \<and> length body \<le> 27)"

definition has_isr_ref :: "account_move \<Rightarrow> error + bool" where
  "has_isr_ref self =
     (let ref_field = py_or (invoice_payment_ref self) (ref self)
      in if \<not> truthy ref_field then Inr False
         else
           (let ref_str = remove_char (CHR '' '') (the ref_field)
            in if match_isr_ref ref_str then
                 (case mod10r (butlast ref_str) of
                    Inl e \<Rightarrow> Inl e
                  | Inr r \<Rightarrow> Inr (ref_str = r))
               else Inr False))"

text \<open>
  The string that \<open>_has_isr_ref\<close> checks: \<open>self.invoice_payment_ref or self.ref\<close>, read as
  the empty string when both fields are falsy.
\<close>

definition ref_candidate :: "account_move \<Rightarrow> string" where
  "ref_candidate self =
     (case py_or (invoice_payment_ref self) (ref self) of None \<Rightarrow> [] | Some s \<Rightarrow> s)"

subsection \<open>Example records\<close>

text \<open>
  The ISR example of the docstring of \<open>_compute_l10n_ch_isr_optical_line\<close>: the amount
  3949.75 CHF, the reference \<open>120000000000234478943216899\<close> and the subscription number
  \<open>01-162-8\<close>, with the computed fields as the compute methods leave them. The payment
  reference is the last example of the docstring of \<open>_has_isr_ref\<close>.
\<close>

definition isr_bank :: res_partner_bank where
  "isr_bank = \<lparr>l10n_ch_postal = None, l10n_ch_isr_subscription_eur = None,
               l10n_ch_isr_subscription_chf = Some ''01-162-8'', is_qr_iban = False\<rparr>"

definition isr_move :: account_move where
  "isr_move = \<lparr>name = Some ''12000000000023447894321689'', type = ''out_invoice'',
     l10n_ch_currency_name = Some ''CHF'', invoice_partner_bank_id = Some isr_bank,
     amount_residual_split = (''3949'', ''75''),
     invoice_payment_ref = Some ''21 00000 00003 13947 14300 09017'', ref = None,
     l10n_ch_isr_subscription = Some ''010001628'',
     l10n_ch_isr_subscription_formatted = Some ''01-162-8'',
     l10n_ch_isr_number = Some ''120000000000234478943216899'',
     l10n_ch_isr_optical_line = Some ''0100003949753>120000000000234478943216899+ 010001628>'',
     l10n_ch_isr_valid = True, l10n_ch_isr_sent = False\<rparr>"

text \<open>
  An invoice named \<open>INV/2021/0001\<close> on a bank account whose \<open>l10n_ch_postal\<close>, read as the
  ISR-B customer ID, has 27 characters.
\<close>

definition long_id_bank :: res_partner_bank where
  "long_id_bank = \<lparr>l10n_ch_postal = Some ''123456789012345678901234567'',
               l10n_ch_isr_subscription_eur = None,
               l10n_ch_isr_subscription_chf = Some ''01-162-8'', is_qr_iban = False\<rparr>"

definition long_id_move :: account_move where
  "long_id_move = isr_move\<lparr>name := Some ''INV/2021/0001'',
     invoice_partner_bank_id := Some long_id_bank\<rparr>"

section \<open>The two grouping routines\<close>

text \<open>
  Each loop unfolds by one round through its step equation; the defining equations are
  taken out of the simplifier, which would unfold them for ever.
\<close>

declare space_isr_loop.simps [simp del]
declare space_qrr_loop.simps [simp del]

lemma space_isr_loop_Nil: "space_isr_loop [] res = res"
  by (simp add: space_isr_loop.simps)

lemma space_isr_loop_step:
  "t \<noteq> [] \<Longrightarrow>
   space_isr_loop t res =
   space_isr_loop (take (length t - 5) t)
     ((if take (length t - 5) t \<noteq> [] then '' '' else []) @ drop (length t - 5) t @ res)"
  by (subst space_isr_loop.simps) (simp add: Let_def)

lemma space_qrr_loop_stop: "i \<le> 0 \<Longrightarrow> space_qrr_loop s i acc = acc"
  by (simp add: space_qrr_loop.simps)

lemma space_qrr_loop_step:
  "0 < i \<Longrightarrow>
   space_qrr_loop s i acc =
   space_qrr_loop s (i - 5) (drop (nat (i - 5)) (take (nat i) s) @ '' '' @ acc)"
  by (subst space_qrr_loop.simps) (simp add: max_def)

lemma length_take_minus5: "t \<noteq> [] \<Longrightarrow> length (take (length t - 5) t) < length t"
  by (cases t) auto

lemma space_isr_loop_append: "space_isr_loop t (res @ r) = space_isr_loop t res @ r"
proof (induction "length t" arbitrary: t res rule: less_induct)
  case less
  show ?case
  proof (cases "t = []")
    case True
    then show ?thesis by (simp add: space_isr_loop_Nil)
  next
    case False
    let ?t1 = "take (length t - 5) t"
    let ?res2 = "(if ?t1 \<noteq> [] then '' '' else []) @ drop (length t - 5) t @ res"
    have "space_isr_loop t (res @ r) = space_isr_loop ?t1 (?res2 @ r)"
      by (simp add: space_isr_loop_step [OF False])
    also have "\<dots> = space_isr_loop ?t1 ?res2 @ r"
      by (rule less [OF length_take_minus5 [OF False]])
    also have "\<dots> = space_isr_loop t res @ r"
      by (simp add: space_isr_loop_step [OF False, of res])
    finally show ?thesis .
  qed
qed

lemma space_isr_loop_acc: "space_isr_loop t res = space_isr_loop t [] @ res"
  using space_isr_loop_append [of t "[]" res] by simp

lemma remove_char_append: "remove_char c (xs @ ys) = remove_char c xs @ remove_char c ys"
  by (simp add: remove_char_def)

lemma remove_char_take_drop:
  "remove_char c (take k xs) @ remove_char c (drop k xs) = remove_char c xs"
  by (metis append_take_drop_id remove_char_append)

lemma remove_char_space_isr_loop:
  "remove_char (CHR '' '') (space_isr_loop t res) =
   remove_char (CHR '' '') t @ remove_char (CHR '' '') res"
proof (induction "length t" arbitrary: t res rule: less_induct)
  case less
  show ?case
  proof (cases "t = []")
    case True
    then show ?thesis by (simp add: space_isr_loop_Nil remove_char_def)
  next
    case False
    let ?t1 = "take (length t - 5) t"
    let ?res2 = "(if ?t1 \<noteq> [] then '' '' else []) @ drop (length t - 5) t @ res"
    have "remove_char (CHR '' '') (space_isr_loop t res) =
          remove_char (CHR '' '') (space_isr_loop ?t1 ?res2)"
      by (simp add: space_isr_loop_step [OF False, of res])
    also have "\<dots> = remove_char (CHR '' '') ?t1 @ remove_char (CHR '' '') ?res2"
      by (rule less [OF length_take_minus5 [OF False]])
    also have "remove_char (CHR '' '') ?res2 =
               remove_char (CHR '' '') (drop (length t - 5) t) @ remove_char (CHR '' '') res"
      by (simp add: remove_char_def)
    finally show ?thesis
      by (simp add: remove_char_take_drop [symmetric, of _ t "length t - 5"])
  qed
qed

lemma remove_char_space_qrr_loop:
  "remove_char (CHR '' '') (space_qrr_loop s i acc) =
   remove_char (CHR '' '') (take (nat i) s) @ remove_char (CHR '' '') acc"
proof (induction s i acc rule: space_qrr_loop.induct)
  case (1 s i acc)
  show ?case
  proof (cases "0 < i")
    case False
    then show ?thesis by (simp add: space_qrr_loop_stop remove_char_def)
  next
    case True
    let ?blk = "drop (nat (i - 5)) (take (nat i) s)"
    have mx: "nat (max (i - 5) 0) = nat (i - 5)" by simp
    have tk: "take (nat (i - 5)) s = take (nat (i - 5)) (take (nat i) s)"
      by (simp add: min_def)
    have "remove_char (CHR '' '') (space_qrr_loop s i acc) =
          remove_char (CHR '' '') (space_qrr_loop s (i - 5) (?blk @ '' '' @ acc))"
      by (simp add: space_qrr_loop_step [OF True])
    also have "\<dots> = remove_char (CHR '' '') (take (nat (i - 5)) s)
                     @ remove_char (CHR '' '') (?blk @ '' '' @ acc)"
      using 1 [OF True] by (simp only: mx)
    also have "\<dots> = (remove_char (CHR '' '') (take (nat (i - 5)) (take (nat i) s))
                     @ remove_char (CHR '' '') ?blk) @ remove_char (CHR '' '') acc"
      by (simp add: remove_char_def min_def)
    also have "\<dots> = remove_char (CHR '' '') (take (nat i) s) @ remove_char (CHR '' '') acc"
      by (simp only: remove_char_take_drop)
    finally show ?thesis .
  qed
qed

lemma space_qrr_loop_isr:
  "0 < i \<Longrightarrow> i \<le> int (length s) \<Longrightarrow>
   space_qrr_loop s i acc = space_isr_loop (take (nat i) s) [] @ '' '' @ acc"
proof (induction s i acc rule: space_qrr_loop.induct)
  case (1 s i acc)
  let ?t = "take (nat i) s"
  let ?blk = "drop (nat (i - 5)) ?t"
  have mx: "nat (max (i - 5) 0) = nat (i - 5)" by simp
  have len: "length ?t = nat i" using "1.prems" by simp
  have ne: "?t \<noteq> []" using "1.prems" len by auto
  have l5: "length ?t - 5 = nat (i - 5)" using len by simp
  have step: "space_qrr_loop s i acc = space_qrr_loop s (i - 5) (?blk @ '' '' @ acc)"
    by (rule space_qrr_loop_step) (rule "1.prems")
  show ?case
  proof (cases "i \<le> 5")
    case True
    then have "space_qrr_loop s i acc = ?t @ '' '' @ acc"
      using step by (simp add: space_qrr_loop_stop)
    moreover have "space_isr_loop ?t [] = ?t"
      using True by (simp add: space_isr_loop_step [OF ne] l5 space_isr_loop_Nil)
    ultimately show ?thesis by simp
  next
    case False
    then have pos: "0 < i - 5" and le: "i - 5 \<le> int (length s)"
      using "1.prems" by simp_all
    have tt: "take (nat (i - 5)) ?t = take (nat (i - 5)) s"
      by (simp add: min_def)
    have t1: "take (length ?t - 5) ?t = take (nat (i - 5)) s"
      by (simp only: l5 tt)
    have t1ne: "take (nat (i - 5)) s \<noteq> []" using pos le by auto
    have IH: "space_qrr_loop s (i - 5) (?blk @ '' '' @ acc) =
          space_isr_loop (take (nat (i - 5)) s) [] @ '' '' @ ?blk @ '' '' @ acc"
      using "1.IH" [OF "1.prems"(1) pos le] by (simp only: mx)
    have "space_isr_loop ?t [] = space_isr_loop (take (nat (i - 5)) s) ('' '' @ ?blk)"
      using space_isr_loop_step [OF ne, of "[]"] t1ne unfolding t1 l5 by simp
    also have "\<dots> = space_isr_loop (take (nat (i - 5)) s) [] @ '' '' @ ?blk"
      by (rule space_isr_loop_acc)
    finally show ?thesis using step IH by simp
  qed
qed

text \<open>
  On every string that is not empty, \<open>space_qrr_reference\<close> returns what
  \<open>_space_isr_number\<close> returns, followed by one more space; on the empty string both
  return the empty string.
\<close>

lemma space_qrr_reference_trailing_space:
  "s \<noteq> [] \<Longrightarrow> space_qrr_reference s = space_isr_number s @ '' ''"
  using space_qrr_loop_isr [of "int (length s)" s "[]"]
  by (simp add: space_qrr_reference_def space_isr_number_def)

lemma space_both_Nil: "space_qrr_reference [] = [] \<and> space_isr_number [] = []"
  by (simp add: space_qrr_reference_def space_isr_number_def space_qrr_loop_stop space_isr_loop_Nil)

lemma remove_char_id: "c \<notin> set s \<Longrightarrow> remove_char c s = s"
  by (induction s) (auto simp: remove_char_def)


text \<open>
  C4. The claim: for every input string, \<open>space_qrr_reference\<close> returns what
  \<open>_space_isr_number\<close> returns, byte for byte. The code does not: on \<open>123456789\<close> the
  former returns \<open>1234 56789\<close> followed by a space, since its loop appends a space after
  every block, the last one too, and the latter returns \<open>1234 56789\<close>.
\<close>

theorem space_qrr_reference_not_byte_identical:
  "space_qrr_reference ''123456789'' = ''1234 56789 '' \<and>
   space_isr_number ''123456789'' = ''1234 56789''"
  by (simp add: space_isr_number_def space_qrr_reference_def
      space_isr_loop.simps space_qrr_loop.simps)

text \<open>
  C5, as the claim states it, fails: a space of the input is removed with the
  separators. On \<open>12 345\<close> grouping and then removing the spaces gives \<open>12345\<close>, with
  either routine.
\<close>

theorem grouping_round_trip_drops_input_spaces:
  "remove_char (CHR '' '') (space_isr_number ''12 345'') \<noteq> ''12 345'' \<and>
   remove_char (CHR '' '') (space_qrr_reference ''12 345'') \<noteq> ''12 345''"
  by (simp add: space_isr_number_def space_qrr_reference_def remove_char_def
      space_isr_loop.simps space_qrr_loop.simps)

text \<open>
  C5, amended: for every string \<open>s\<close> that contains no space, grouping it into blocks of
  five, with \<open>_space_isr_number\<close> or with \<open>space_qrr_reference\<close>, and then removing all
  spaces returns \<open>s\<close>.
\<close>

theorem grouping_round_trip:
  "CHR '' '' \<notin> set s \<Longrightarrow>
    remove_char (CHR '' '') (space_isr_number s) = s \<and>
    remove_char (CHR '' '') (space_qrr_reference s) = s"
  by (simp add: space_isr_number_def space_qrr_reference_def remove_char_space_isr_loop
      remove_char_space_qrr_loop remove_char_id)

theorem grouping_round_trip_witness:
  "CHR '' '' \<notin> set ''123456789'' \<and>
    remove_char (CHR '' '') (space_isr_number ''123456789'') = ''123456789'' \<and>
    remove_char (CHR '' '') (space_qrr_reference ''123456789'') = ''123456789''"
  using grouping_round_trip [of "''123456789''"] by simp

section \<open>Evaluation on the example records\<close>

lemma replicate_numeral: "replicate (numeral k) x = x # replicate (pred_numeral k) x"
  by (simp add: numeral_eq_Suc)

lemmas eval_defs =
  isr_bank_def isr_move_def long_id_bank_def long_id_move_def
  compute_l10n_ch_isr_subscription_def format_subscription_fields_def
  format_isr_subscription_def format_isr_subscription_scanline_def
  slice_2_m1_def slice_m1_end_def index_m1_def rjust_def remove_char_def truthy_def py_or_def
  compute_l10n_ch_isr_number_def get_isrb_id_number_def isr_reference_body_def
  isr_id_part_def isr_internal_ref_def zfill_def l10n_ch_ISR_ID_NUM_LENGTH_def
  mod10r_def is_digit_def check_digit_def digit_char_def digit_val_def
  mod10r_table_def mod10r_codec_def
  get_l10n_ch_isr_optical_amount_def compute_l10n_ch_isr_optical_line_def
  compute_l10n_ch_isr_valid_def isr_print_def isr_print_errors_def
  has_isr_ref_def match_isr_ref_def Let_def replicate_numeral

text \<open>
  The table of \<open>mod10r\<close> gives the check digits that the docstrings of the file show:
  \<open>9\<close> for the reference, \<open>3\<close> and \<open>4\<close> for the two amounts, \<open>1\<close> for \<open>1237\<close>.
\<close>

lemma mod10r_docstring_examples:
  "mod10r ''12000000000023447894321689'' = Inr ''120000000000234478943216899''"
  "mod10r ''010000394975'' = Inr ''0100003949753''"
  "mod10r ''010000049400'' = Inr ''0100000494004''"
  "mod10r ''1237'' = Inr ''12371''"
  by (simp_all add: eval_defs)

text \<open>Every compute method leaves the fields of \<open>isr_move\<close> as they are.\<close>

lemma isr_move_subscription: "compute_l10n_ch_isr_subscription isr_move = Inr isr_move"
  by (simp add: eval_defs)

lemma isr_move_number: "compute_l10n_ch_isr_number isr_move = Inr isr_move"
  by (simp add: eval_defs)

lemma isr_move_line: "compute_l10n_ch_isr_optical_line isr_move = Inr isr_move"
  by (simp add: eval_defs)

lemma isr_move_valid: "compute_l10n_ch_isr_valid isr_move = isr_move"
  by (simp add: eval_defs)

lemma long_id_move_subscription:
  "compute_l10n_ch_isr_subscription long_id_move = Inr long_id_move"
  by (simp add: eval_defs)

section \<open>The checksum and the reference validator\<close>

lemma is_digit_digit_char: "n < 10 \<Longrightarrow> is_digit (digit_char n)"
  unfolding is_digit_def digit_char_def by (rule nth_mem) simp

lemma is_digit_check_digit: "is_digit (check_digit d)"
  unfolding check_digit_def by (rule is_digit_digit_char) simp

lemma mod10r_digits: "list_all is_digit d \<Longrightarrow> mod10r d = Inr (d @ [check_digit d])"
  by (simp add: mod10r_def)

lemma mod10r_Inr: "mod10r d = Inr r \<Longrightarrow> list_all is_digit d \<and> r = d @ [check_digit d]"
  by (auto simp: mod10r_def split: if_splits)

lemma mod10r_length: "mod10r d = Inr r \<Longrightarrow> length r = length d + 1"
  by (auto dest: mod10r_Inr)

lemma is_digit_not_space: "is_digit c \<Longrightarrow> c \<noteq> CHR '' ''"
  by (auto simp: is_digit_def)

lemma is_digit_not_newline: "is_digit c \<Longrightarrow> c \<noteq> CHR 0x0A"
  by (auto simp: is_digit_def)

lemma is_digit_not_sign: "is_digit c \<Longrightarrow> c \<noteq> CHR ''+'' \<and> c \<noteq> CHR ''-''"
  by (auto simp: is_digit_def)

lemma is_digit_zero: "is_digit (CHR ''0'')"
  by (simp add: is_digit_def)

lemma digits_no_space: "list_all is_digit s \<Longrightarrow> remove_char (CHR '' '') s = s"
  by (induction s) (auto simp: remove_char_def dest: is_digit_not_space)

lemma list_all_butlast: "list_all P s \<Longrightarrow> list_all P (butlast s)"
  by (induction s) auto

lemma list_all_drop: "list_all P s \<Longrightarrow> list_all P (drop k s)"
  by (auto simp: list_all_iff dest: in_set_dropD)

lemma all_digits_filter: "list_all is_digit (filter is_digit s)"
  by (simp add: list_all_iff)

text \<open>On a string of digits the regular expression only checks the length.\<close>

lemma match_isr_ref_digits:
  "list_all is_digit s \<Longrightarrow> match_isr_ref s = (2 \<le> length s \<and> length s \<le> 27)"
proof -
  assume d: "list_all is_digit s"
  have "\<not> (s \<noteq> [] \<and> last s = CHR 0x0A)"
  proof
    assume a: "s \<noteq> [] \<and> last s = CHR 0x0A"
    then have "last s \<in> set s" by (metis last_in_set)
    with d have "is_digit (last s)" by (simp add: list_all_iff)
    with a show False by (auto dest: is_digit_not_newline)
  qed
  with d show ?thesis by (auto simp: match_isr_ref_def)
qed

text \<open>
  The only strings that match without being all digits are digits followed by a newline.
\<close>

lemma match_isr_ref_not_digits:
  "match_isr_ref s \<Longrightarrow> \<not> list_all is_digit s \<Longrightarrow>
   s \<noteq> [] \<and> last s = CHR 0x0A \<and> list_all is_digit (butlast s)"
  by (auto simp: match_isr_ref_def Let_def split: if_splits)

lemma has_isr_ref_unfold:
  "has_isr_ref self =
     (let c = remove_char (CHR '' '') (ref_candidate self)
      in if ref_candidate self \<noteq> [] \<and> match_isr_ref c then
           (case mod10r (butlast c) of Inl e \<Rightarrow> Inl e | Inr r \<Rightarrow> Inr (c = r))
         else Inr False)"
  by (cases "py_or (invoice_payment_ref self) (ref self)")
     (simp_all add: has_isr_ref_def ref_candidate_def truthy_def Let_def)

lemma checked_string:
  "(if match_isr_ref c then
           (case mod10r (butlast c) of Inl e \<Rightarrow> Inl e | Inr r \<Rightarrow> Inr (c = r))
         else Inr False) =
   Inr (list_all is_digit c \<and> 2 \<le> length c \<and> length c \<le> 27 \<and> mod10r (butlast c) = Inr c)"
proof (cases "list_all is_digit c")
  case True
  then have b: "list_all is_digit (butlast c)" by (rule list_all_butlast)
  show ?thesis using True
    by (auto simp: match_isr_ref_digits mod10r_digits [OF b])
next
  case False
  show ?thesis
  proof (cases "match_isr_ref c")
    case m: True
    from match_isr_ref_not_digits [OF m False]
    have ne: "c \<noteq> []" and nl: "last c = CHR 0x0A" and b: "list_all is_digit (butlast c)"
      by simp_all
    have "c \<noteq> butlast c @ [check_digit (butlast c)]"
    proof
      assume "c = butlast c @ [check_digit (butlast c)]"
      then have "last c = check_digit (butlast c)" by (metis last_snoc)
      with nl is_digit_check_digit [of "butlast c"] show False
        by (auto dest: is_digit_not_newline)
    qed
    then show ?thesis using False m by (simp add: mod10r_digits [OF b])
  next
    case False
    then show ?thesis using \<open>\<not> list_all is_digit c\<close> by simp
  qed
qed

lemma has_isr_ref_iff:
  "has_isr_ref self =
   Inr (list_all is_digit (remove_char (CHR '' '') (ref_candidate self)) \<and>
        2 \<le> length (remove_char (CHR '' '') (ref_candidate self)) \<and>
        length (remove_char (CHR '' '') (ref_candidate self)) \<le> 27 \<and>
        mod10r (butlast (remove_char (CHR '' '') (ref_candidate self))) =
          Inr (remove_char (CHR '' '') (ref_candidate self)))"
proof (cases "ref_candidate self = []")
  case True
  then show ?thesis by (simp add: has_isr_ref_unfold remove_char_def)
next
  case False
  then show ?thesis
    by (simp add: has_isr_ref_unfold Let_def checked_string)
qed

text \<open>
  C2. For every invoice, \<open>_has_isr_ref\<close> returns a truth value and never raises, and the
  value is true if and only if the candidate \<open>self.invoice_payment_ref or self.ref\<close>,
  once its spaces are removed, consists of 2 to 27 digits and is what \<open>mod10r\<close> returns
  on the candidate without its last digit.
\<close>

theorem has_isr_ref_format_and_checksum:
  "has_isr_ref self =
   Inr (let candidate = remove_char (CHR '' '') (ref_candidate self)
        in list_all is_digit candidate
           \<and> 2 \<le> length candidate \<and> length candidate \<le> 27
           \<and> mod10r (butlast candidate) = Inr candidate)"
  unfolding Let_def by (rule has_isr_ref_iff)

text \<open>
  C2 on the last example of the docstring, \<open>21 00000 00003 13947 14300 09017\<close>.
\<close>

theorem has_isr_ref_format_and_checksum_witness:
  "has_isr_ref isr_move = Inr True \<and>
   ref_candidate isr_move = ''21 00000 00003 13947 14300 09017'' \<and>
   remove_char (CHR '' '') (ref_candidate isr_move) = ''210000000003139471430009017'' \<and>
   mod10r ''21000000000313947143000901'' = Inr ''210000000003139471430009017''"
proof -
  have c: "ref_candidate isr_move = ''21 00000 00003 13947 14300 09017''"
    by (simp add: ref_candidate_def py_or_def truthy_def isr_move_def)
  have m: "mod10r ''21000000000313947143000901'' = Inr ''210000000003139471430009017''"
    by (simp add: eval_defs)
  from has_isr_ref_format_and_checksum [of isr_move] show ?thesis
    unfolding c Let_def using m by (simp add: remove_char_def is_digit_def)
qed

text \<open>
  C3. For every string \<open>d\<close> of 1 to 26 digits, \<open>mod10r\<close> returns \<open>d\<close> with its check digit
  appended, and \<open>_has_isr_ref\<close> returns true on every invoice whose candidate is that
  string.
\<close>

theorem has_isr_ref_accepts_mod10r:
  assumes "list_all is_digit d" and "1 \<le> length d" and "length d \<le> 26"
    and "py_or (invoice_payment_ref self) (ref self) = Some (d @ [check_digit d])"
  shows "mod10r d = Inr (d @ [check_digit d]) \<and> has_isr_ref self = Inr True"
proof -
  let ?c = "d @ [check_digit d]"
  have dc: "list_all is_digit ?c" using assms(1) by (simp add: is_digit_check_digit)
  have rc: "ref_candidate self = ?c" by (simp add: ref_candidate_def assms(4))
  have m: "mod10r d = Inr ?c" by (rule mod10r_digits [OF assms(1)])
  show ?thesis
    unfolding has_isr_ref_iff rc digits_no_space [OF dc]
    using dc assms(2,3) m by simp
qed

text \<open>C3 on the first example of the docstring: \<open>1237\<close> with its check digit \<open>1\<close>.\<close>

theorem has_isr_ref_accepts_mod10r_witness:
  "list_all is_digit ''1237'' \<and> 1 \<le> length ''1237'' \<and> length ''1237'' \<le> 26 \<and>
   mod10r ''1237'' = Inr ''12371'' \<and>
   has_isr_ref (isr_move\<lparr>invoice_payment_ref := Some ''12371''\<rparr>) = Inr True"
proof -
  have d: "list_all is_digit ''1237''" by (simp add: is_digit_def)
  have c: "check_digit ''1237'' = CHR ''1''" by (simp add: eval_defs)
  have p: "py_or (invoice_payment_ref (isr_move\<lparr>invoice_payment_ref := Some ''12371''\<rparr>))
             (ref (isr_move\<lparr>invoice_payment_ref := Some ''12371''\<rparr>))
           = Some (''1237'' @ [check_digit ''1237''])"
    by (simp add: py_or_def truthy_def c)
  from has_isr_ref_accepts_mod10r [OF d _ _ p] d c show ?thesis by simp
qed

section \<open>The reference number builder\<close>

lemma zfill_length: "length (zfill s w) = max (length s) (nat w)"
  by (cases s) (auto simp: zfill_def Let_def)

lemma zfill_digits:
  "list_all is_digit s \<Longrightarrow> zfill s w = replicate (nat (w - int (length s))) (CHR ''0'') @ s"
  by (cases s) (auto simp: zfill_def Let_def dest: is_digit_not_sign)

lemma zfill_all_digits: "list_all is_digit s \<Longrightarrow> list_all is_digit (zfill s w)"
  by (auto simp: zfill_digits list_all_iff is_digit_zero)

lemma isr_id_part_length:
  "length (isr_id_part i) = (if i = [] then 0 else max (length i) 6)"
  by (simp add: isr_id_part_def zfill_length l10n_ch_ISR_ID_NUM_LENGTH_def)

lemma isr_internal_ref_length:
  "length idp \<le> 26 \<Longrightarrow> length (isr_internal_ref idp digits) = 26 - length idp"
  by (auto simp: isr_internal_ref_def Let_def zfill_length)

lemma isr_reference_body_length:
  "length (isr_id_part i) \<le> 26 \<Longrightarrow> length (isr_reference_body i n) = 26"
  by (simp add: isr_reference_body_def Let_def isr_internal_ref_length)

text \<open>
  Without truncation: when the id part and the digits of the name have at most 26
  characters together, the digits are padded with zeros on the left.
\<close>

lemma isr_internal_ref_padded:
  "list_all is_digit digits \<Longrightarrow> length idp + length digits \<le> 26 \<Longrightarrow>
   isr_internal_ref idp digits =
   replicate (26 - (length idp + length digits)) (CHR ''0'') @ digits"
proof -
  assume d: "list_all is_digit digits" and le: "length idp + length digits \<le> 26"
  have "nat (26 - int (length idp) - int (length digits)) = 26 - (length idp + length digits)"
    by simp
  with le show ?thesis
    by (simp add: isr_internal_ref_def Let_def zfill_digits [OF d])
qed

text \<open>
  The width of the reference when the customer ID has at most 26 characters: whenever
  the method computes a reference, it has 27 characters.
\<close>

lemma compute_l10n_ch_isr_number_width:
  assumes "compute_l10n_ch_isr_number record = Inr record'"
    and "(case invoice_partner_bank_id record of None \<Rightarrow> False | Some bank \<Rightarrow> is_qr_iban bank)
         \<or> truthy (l10n_ch_isr_subscription record)"
    and "truthy (name record)"
    and "length (get_isrb_id_number record) \<le> 26"
  shows "\<exists>number. l10n_ch_isr_number record' = Some number \<and> length number = 27"
proof -
  let ?body = "isr_reference_body (get_isrb_id_number record) (the (name record))"
  from assms(1,2,3) obtain number where m: "mod10r ?body = Inr number"
    and r: "record' = record\<lparr>l10n_ch_isr_number := Some number\<rparr>"
    by (auto simp: compute_l10n_ch_isr_number_def Let_def split: sum.splits)
  have "length (isr_id_part (get_isrb_id_number record)) \<le> 26"
    using assms(4) by (simp add: isr_id_part_length)
  then have "length ?body = 26" by (rule isr_reference_body_length)
  with mod10r_length [OF m] have "length number = 27" by simp
  with r show ?thesis by simp
qed

lemma compute_l10n_ch_isr_number_absent:
  "\<not> (((case invoice_partner_bank_id record of None \<Rightarrow> False | Some bank \<Rightarrow> is_qr_iban bank)
         \<or> truthy (l10n_ch_isr_subscription record)) \<and> truthy (name record)) \<Longrightarrow>
   compute_l10n_ch_isr_number record = Inr (record\<lparr>l10n_ch_isr_number := None\<rparr>)"
  by (auto simp: compute_l10n_ch_isr_number_def Let_def)

text \<open>
  C1. The claim: every reference that \<open>_compute_l10n_ch_isr_number\<close> computes has exactly
  27 characters. The code breaks it when the customer ID alone has more than 26
  characters: on \<open>long_id_move\<close>, which has a subscription number and a name, the ID has 27
  characters, all the digits of the name are dropped, no padding is added, and the
  reference is the ID and its check digit, 28 characters.
\<close>

theorem isr_number_of_long_customer_id:
  "truthy (l10n_ch_isr_subscription long_id_move) \<and> truthy (name long_id_move) \<and>
   compute_l10n_ch_isr_number long_id_move =
     Inr (long_id_move\<lparr>l10n_ch_isr_number := Some ''1234567890123456789012345670''\<rparr>) \<and>
   length ''1234567890123456789012345670'' = 28"
  by (simp add: eval_defs)

text \<open>
  C6, as the claim states it, fails on the same customer ID of 27 characters: with the 8
  digits of \<open>INV/2021/0001\<close> the combined length is 35, there are not 9 digits to drop, and
  the body is the ID alone, 27 characters and not 26.
\<close>

theorem isr_reference_body_of_long_customer_id:
  "26 < length (isr_id_part ''123456789012345678901234567'')
        + length (filter is_digit ''INV/2021/0001'') \<and>
   length (filter is_digit ''INV/2021/0001'')
     < length (isr_id_part ''123456789012345678901234567'')
       + length (filter is_digit ''INV/2021/0001'') - 26 \<and>
   isr_reference_body ''123456789012345678901234567'' ''INV/2021/0001''
     = ''123456789012345678901234567'' \<and>
   length (isr_reference_body ''123456789012345678901234567'' ''INV/2021/0001'') = 27"
  by (simp add: eval_defs)

text \<open>
  C6, amended: when the zero-padded customer-id part has at most 26 characters and its
  length plus that of the digits of the invoice name exceeds 26, exactly
  \<open>totalLen - 26\<close> characters are dropped from the left of the invoice digits; the digits
  kept are left-zero-padded to the width 26 minus the length of the id part (which they
  already have), and the body is the id part followed by them, 26 characters.
\<close>

theorem isr_reference_body_truncation:
  assumes "length (isr_id_part i) \<le> 26"
    and "26 < length (isr_id_part i) + length (filter is_digit n)"
  shows "let id_part = isr_id_part i;
             invoice_digits = filter is_digit n;
             extra = length id_part + length invoice_digits - 26;
             kept = drop extra invoice_digits
         in invoice_digits = take extra invoice_digits @ kept
            \<and> length (take extra invoice_digits) = extra
            \<and> isr_internal_ref id_part invoice_digits = zfill kept (26 - int (length id_part))
            \<and> isr_internal_ref id_part invoice_digits
                = replicate (26 - length id_part - length kept) (CHR ''0'') @ kept
            \<and> length (isr_internal_ref id_part invoice_digits) = 26 - length id_part
            \<and> isr_reference_body i n = id_part @ isr_internal_ref id_part invoice_digits
            \<and> length (isr_reference_body i n) = 26"
proof -
  let ?idp = "isr_id_part i"
  let ?dig = "filter is_digit n"
  let ?extra = "length ?idp + length ?dig - 26"
  let ?kept = "drop ?extra ?dig"
  have ex: "?extra \<le> length ?dig" using assms by simp
  have n: "nat (int (length ?idp) + int (length ?dig) - 26) = ?extra" by simp
  have pos: "int (length ?idp) + int (length ?dig) - 26 > 0" using assms(2) by simp
  have ir: "isr_internal_ref ?idp ?dig = zfill ?kept (26 - int (length ?idp))"
    using pos by (simp only: isr_internal_ref_def Let_def n if_True)
  have kd: "list_all is_digit ?kept" by (rule list_all_drop) (rule all_digits_filter)
  have kl: "length ?kept = 26 - length ?idp" using assms by simp
  have ir2: "isr_internal_ref ?idp ?dig
             = replicate (26 - length ?idp - length ?kept) (CHR ''0'') @ ?kept"
    unfolding ir zfill_digits [OF kd] using kl by simp
  have len: "length (isr_internal_ref ?idp ?dig) = 26 - length ?idp"
    by (rule isr_internal_ref_length [OF assms(1)])
  have body: "isr_reference_body i n = ?idp @ isr_internal_ref ?idp ?dig"
    by (simp add: isr_reference_body_def Let_def)
  have bl: "length (isr_reference_body i n) = 26"
    by (rule isr_reference_body_length [OF assms(1)])
  show ?thesis
    unfolding Let_def using ex ir ir2 len body bl by simp
qed

text \<open>
  C6 on the ISR-B example of the docstring: the customer ID \<open>150001\<close> and a name with
  24 digits, of which the last 20 are kept.
\<close>

theorem isr_reference_body_truncation_witness:
  "length (isr_id_part ''150001'') \<le> 26 \<and>
   26 < length (isr_id_part ''150001'')
        + length (filter is_digit ''2021/12345678901234567890'') \<and>
   drop 4 (filter is_digit ''2021/12345678901234567890'') = ''12345678901234567890'' \<and>
   isr_internal_ref ''150001'' ''202112345678901234567890'' = ''12345678901234567890'' \<and>
   isr_reference_body ''150001'' ''2021/12345678901234567890''
     = ''15000112345678901234567890'' \<and>
   length (isr_reference_body ''150001'' ''2021/12345678901234567890'') = 26"
proof -
  have i: "isr_id_part ''150001'' = ''150001''" by (simp add: eval_defs)
  have d: "filter is_digit ''2021/12345678901234567890'' = ''202112345678901234567890''"
    by (simp add: is_digit_def)
  have z: "zfill ''12345678901234567890'' 20 = ''12345678901234567890''"
    by (simp add: zfill_def)
  from isr_reference_body_truncation [of "''150001''" "''2021/12345678901234567890''"]
  show ?thesis unfolding i d Let_def by (simp add: z)
qed

section \<open>The subscription formatter\<close>

text \<open>
  C7, as the claim states it, fails: a middle part of more than 6 digits is not cut. On
  the 10 digits \<open>0100016281\<close> the scanline form is the input itself, 10 characters.
\<close>

theorem scanline_of_ten_digits:
  "list_all is_digit ''0100016281'' \<and> 3 \<le> length ''0100016281'' \<and>
   format_isr_subscription_scanline ''0100016281'' = ''0100016281'' \<and>
   length (format_isr_subscription_scanline ''0100016281'') = 10"
  by (simp add: format_isr_subscription_scanline_def rjust_def slice_m1_end_def slice_2_m1_def
      is_digit_def)

text \<open>
  C7, amended: for every raw subscription string of 3 to 9 characters (whether digits or
  not), the scanline form has exactly 9 characters: the first 2 characters (the currency
  code), the middle part padded with zeros on the left to 6 characters, and the last
  character (the trailing cipher).
\<close>

theorem scanline_width:
  assumes "3 \<le> length raw" and "length raw \<le> 9"
  shows "format_isr_subscription_scanline raw =
           take 2 raw @ (replicate (9 - length raw) (CHR ''0'') @ drop 2 (butlast raw)) @ [last raw]
         \<and> length (take 2 raw) = 2
         \<and> length (replicate (9 - length raw) (CHR ''0'') @ drop 2 (butlast raw)) = 6
         \<and> length (format_isr_subscription_scanline raw) = 9"
proof -
  have ne: "raw \<noteq> []" using assms(1) by auto
  have m: "length (slice_2_m1 raw) = length raw - 3" by (simp add: slice_2_m1_def)
  have r: "6 - (length raw - 3) = 9 - length raw" using assms by simp
  have eq: "format_isr_subscription_scanline raw =
           take 2 raw @ (replicate (9 - length raw) (CHR ''0'') @ drop 2 (butlast raw)) @ [last raw]"
    using ne by (simp add: format_isr_subscription_scanline_def rjust_def slice_m1_end_def m r)
       (simp add: slice_2_m1_def)
  show ?thesis unfolding eq using assms by simp
qed

text \<open>C7 on \<open>01-162-8\<close> without its hyphens.\<close>

theorem scanline_width_witness:
  "3 \<le> length ''011628'' \<and> length ''011628'' \<le> 9 \<and>
   format_isr_subscription_scanline ''011628'' = ''010001628'' \<and>
   length (format_isr_subscription_scanline ''011628'') = 9"
  using scanline_width [of "''011628''"] by (simp add: replicate_numeral)

text \<open>
  C9, as the claim states it, fails: the middle part of \<open>010001628\<close> is \<open>000162\<close>, the
  characters between the first two and the last one, so the display form is not
  \<open>01-1628-8\<close>.
\<close>

theorem format_isr_subscription_is_not_01_1628_8:
  "format_isr_subscription ''010001628'' \<noteq> Inr ''01-1628-8''"
  by (simp add: format_isr_subscription_def slice_2_m1_def index_m1_def)

text \<open>
  C9, amended: formatting the subscription string \<open>010001628\<close> yields the display form
  \<open>01-162-8\<close>, as the docstring of \<open>_compute_l10n_ch_isr_optical_line\<close> has it.
\<close>

theorem format_isr_subscription_010001628:
  "format_isr_subscription ''010001628'' = Inr ''01-162-8''"
  by (simp add: format_isr_subscription_def slice_2_m1_def index_m1_def)

text \<open>
  The method sets a subscription number only for the currencies EUR and CHF, the two
  for which \<open>_get_l10n_ch_isr_optical_amount\<close> has a currency code.
\<close>

lemma subscription_currency:
  assumes "compute_l10n_ch_isr_subscription record = Inr record'"
    and "truthy (l10n_ch_isr_subscription record')"
  shows "l10n_ch_currency_name record' \<in> set [Some ''EUR'', Some ''CHF'']"
  using assms
  by (auto simp: compute_l10n_ch_isr_subscription_def format_subscription_fields_def Let_def
      truthy_def split: option.splits if_splits sum.splits)

section \<open>The optical line\<close>

lemma get_l10n_ch_isr_optical_amount_line [simp]:
  "get_l10n_ch_isr_optical_amount (record\<lparr>l10n_ch_isr_optical_line := v\<rparr>) =
   get_l10n_ch_isr_optical_amount record"
  by (simp add: get_l10n_ch_isr_optical_amount_def)

text \<open>
  The amount block is computed for the currencies CHF and EUR whenever the units and the
  cents are digits.
\<close>

lemma optical_amount_returns:
  assumes "l10n_ch_currency_name record \<in> set [Some ''EUR'', Some ''CHF'']"
    and "list_all is_digit (fst (amount_residual_split record) @ snd (amount_residual_split record))"
  shows "\<exists>amount. get_l10n_ch_isr_optical_amount record = Inr amount"
proof -
  obtain units cents where s: "amount_residual_split record = (units, cents)"
    by (cases "amount_residual_split record")
  have z: "list_all is_digit (zfill (units @ cents) 10)"
    using assms(2) s by (intro zfill_all_digits) simp
  have c: "list_all is_digit (CHR ''0'' # CHR ''1'' # zfill (units @ cents) 10)"
          "list_all is_digit (CHR ''0'' # CHR ''3'' # zfill (units @ cents) 10)"
    using z by (simp_all add: is_digit_def)
  from assms(1) show ?thesis
    by (auto simp: get_l10n_ch_isr_optical_amount_def s Let_def mod10r_digits [OF c(1)]
        mod10r_digits [OF c(2)])
qed

text \<open>
  C8. Whenever the reference, the subscription number or the currency name is empty or
  absent, \<open>_compute_l10n_ch_isr_optical_line\<close> raises nothing and sets the optical line to
  the empty string; so it does in particular for an empty reference. When the three are
  present, the optical line is the amount block of \<open>_get_l10n_ch_isr_optical_amount\<close>,
  \<open>>\<close>, the reference, \<open>+\<close> and one space, the subscription number and \<open>>\<close>.
\<close>

theorem optical_line_assembly:
  "(\<not> (truthy (l10n_ch_isr_number record) \<and> truthy (l10n_ch_isr_subscription record)
        \<and> truthy (l10n_ch_currency_name record)) \<longrightarrow>
      compute_l10n_ch_isr_optical_line record =
        Inr (record\<lparr>l10n_ch_isr_optical_line := Some []\<rparr>))
   \<and> (\<not> truthy (l10n_ch_isr_number record) \<longrightarrow>
      compute_l10n_ch_isr_optical_line record =
        Inr (record\<lparr>l10n_ch_isr_optical_line := Some []\<rparr>))
   \<and> (truthy (l10n_ch_isr_number record) \<and> truthy (l10n_ch_isr_subscription record)
        \<and> truthy (l10n_ch_currency_name record) \<longrightarrow>
      (\<forall>amount. get_l10n_ch_isr_optical_amount record = Inr amount \<longrightarrow>
         compute_l10n_ch_isr_optical_line record =
           Inr (record\<lparr>l10n_ch_isr_optical_line :=
                  Some (amount @ ''>'' @ the (l10n_ch_isr_number record) @ ''+ ''
                        @ the (l10n_ch_isr_subscription record) @ ''>'')\<rparr>)))"
  by (simp add: compute_l10n_ch_isr_optical_line_def Let_def)

text \<open>
  C8 on the example of the docstring, whose optical line is
  \<open>0100003949753>120000000000234478943216899+ 010001628>\<close>, and on the same invoice with an
  empty reference.
\<close>

theorem optical_line_assembly_witness:
  "truthy (l10n_ch_isr_number isr_move) \<and> truthy (l10n_ch_isr_subscription isr_move)
   \<and> truthy (l10n_ch_currency_name isr_move)
   \<and> get_l10n_ch_isr_optical_amount isr_move = Inr ''0100003949753''
   \<and> compute_l10n_ch_isr_optical_line isr_move =
       Inr (isr_move\<lparr>l10n_ch_isr_optical_line :=
              Some ''0100003949753>120000000000234478943216899+ 010001628>''\<rparr>)
   \<and> \<not> truthy (l10n_ch_isr_number (isr_move\<lparr>l10n_ch_isr_number := Some []\<rparr>))
   \<and> compute_l10n_ch_isr_optical_line (isr_move\<lparr>l10n_ch_isr_number := Some []\<rparr>) =
       Inr (isr_move\<lparr>l10n_ch_isr_number := Some [], l10n_ch_isr_optical_line := Some []\<rparr>)"
proof -
  have t: "truthy (l10n_ch_isr_number isr_move) \<and> truthy (l10n_ch_isr_subscription isr_move)
   \<and> truthy (l10n_ch_currency_name isr_move)"
    by (simp add: isr_move_def truthy_def)
  have a: "get_l10n_ch_isr_optical_amount isr_move = Inr ''0100003949753''"
    by (simp add: eval_defs)
  have n: "\<not> truthy (l10n_ch_isr_number (isr_move\<lparr>l10n_ch_isr_number := Some []\<rparr>))"
    by (simp add: truthy_def)
  have f: "the (l10n_ch_isr_number isr_move) = ''120000000000234478943216899''
      \<and> the (l10n_ch_isr_subscription isr_move) = ''010001628''"
    by (simp add: isr_move_def)
  from optical_line_assembly [of isr_move] t a f
    optical_line_assembly [of "isr_move\<lparr>l10n_ch_isr_number := Some []\<rparr>"] n
  show ?thesis by simp
qed

section \<open>The print action\<close>

text \<open>
  C10. On every invoice whose validity flag, as \<open>_compute_l10n_ch_isr_valid\<close> sets it, is
  false, the list of reasons that \<open>isr_print\<close> collects is not empty: the method raises
  \<open>ValidationError\<close> with that list, never \<open>NotImplementedError\<close>, and leaves the record,
  and so its flag \<open>l10n_ch_isr_sent\<close>, as it was.
\<close>

theorem isr_print_invalid:
  assumes "\<not> l10n_ch_isr_valid (compute_l10n_ch_isr_valid self)"
  shows "let record = compute_l10n_ch_isr_valid self
         in isr_print_errors record \<noteq> []
            \<and> isr_print record = (record, Inl (ValidationError (isr_print_errors record)))
            \<and> snd (isr_print record) \<noteq> Inl NotImplementedError
            \<and> l10n_ch_isr_sent (fst (isr_print record)) = l10n_ch_isr_sent self"
proof -
  let ?r = "compute_l10n_ch_isr_valid self"
  have ne: "isr_print_errors ?r \<noteq> []"
    using assms
    by (auto simp: compute_l10n_ch_isr_valid_def isr_print_errors_def Let_def)
  have p: "isr_print ?r = (?r, Inl (ValidationError (isr_print_errors ?r)))"
    using assms ne by (simp add: isr_print_def Let_def)
  have s: "l10n_ch_isr_sent ?r = l10n_ch_isr_sent self"
    by (simp add: compute_l10n_ch_isr_valid_def)
  show ?thesis unfolding Let_def p using ne s by simp
qed

text \<open>C10 on the example invoice turned into a vendor bill.\<close>

theorem isr_print_invalid_witness:
  "\<not> l10n_ch_isr_valid (compute_l10n_ch_isr_valid (isr_move\<lparr>type := ''in_invoice''\<rparr>)) \<and>
   isr_print (compute_l10n_ch_isr_valid (isr_move\<lparr>type := ''in_invoice''\<rparr>)) =
     (isr_move\<lparr>type := ''in_invoice'', l10n_ch_isr_valid := False\<rparr>,
      Inl (ValidationError [''- You can only print Customer ISR.'']))"
proof -
  have v: "\<not> l10n_ch_isr_valid (compute_l10n_ch_isr_valid (isr_move\<lparr>type := ''in_invoice''\<rparr>))"
    by (simp add: compute_l10n_ch_isr_valid_def)
  have r: "compute_l10n_ch_isr_valid (isr_move\<lparr>type := ''in_invoice''\<rparr>) =
     isr_move\<lparr>type := ''in_invoice'', l10n_ch_isr_valid := False\<rparr>"
    by (simp add: compute_l10n_ch_isr_valid_def)
  have e: "isr_print_errors (isr_move\<lparr>type := ''in_invoice'', l10n_ch_isr_valid := False\<rparr>) =
      [''- You can only print Customer ISR.'']"
    by (simp add: isr_print_errors_def isr_move_def truthy_def)
  from isr_print_invalid [OF v] v show ?thesis unfolding r Let_def e by simp
qed

text \<open>On a valid invoice the method sets the flag and returns the report action.\<close>

lemma isr_print_valid:
  "l10n_ch_isr_valid self \<Longrightarrow>
   isr_print self =
     (self\<lparr>l10n_ch_isr_sent := True\<rparr>, Inr (Report_Action ''l10n_ch.l10n_ch_isr_report''))"
  by (simp add: isr_print_def)

end
